theory Spec2Isabelle
  imports Complex_Main "HOL-Library.Multiset" "HOL-Library.Product_Lexorder"
begin

section \<open>Values, frames and errors\<close>

text \<open>
  The dashboard script \<^verbatim>\<open>app.py\<close> works on two pandas data frames. A frame is modelled
  as its list of column labels together with its rows, each row a list of cells in column
  order. A cell is a number, a text, a boolean, a timestamp without or with a timezone, or
  the missing value (NaN, NaT and None are all \<open>Null\<close>: \<^verbatim>\<open>dropna\<close> treats them alike).
  A text is the list of its code points, each below 256.

  A \<open>timestamp\<close> counts nanoseconds since the epoch (\<^verbatim>\<open>datetime64[ns]\<close>); a \<open>date\<close>
  counts days since the epoch (the \<^verbatim>\<open>datetime.date\<close> that \<^verbatim>\<open>st.date_input\<close> returns).

  The field \<open>naive_date\<close> records the one piece of dtype information the script depends
  on: whether the column labelled \<^verbatim>\<open>Date\<close> has the dtype \<^verbatim>\<open>datetime64[ns]\<close> without a
  timezone. Only on such a column is a comparison with \<^verbatim>\<open>pd.to_datetime(start_date)\<close>
  defined; on any other pandas raises \<^verbatim>\<open>TypeError\<close>.
\<close>

type_synonym timestamp = int
type_synonym date = int

datatype val = Num real | Str string | Bool bool | Ts timestamp | TsTz timestamp | Null

record frame =
  columns :: "string list"
  body :: "val list list"
  naive_date :: bool

text \<open>
  \<open>KeyError l\<close>: the label \<open>l\<close> is not a column of the frame.
  \<open>NotASeries l\<close>: the label occurs more than once, so \<^verbatim>\<open>df[l]\<close> is a sub-frame and not a
  series; \<^verbatim>\<open>pd.to_datetime\<close> and \<^verbatim>\<open>pd.to_numeric\<close> raise on it, and the script's row masks
  are not defined for it.
  \<open>TypeError\<close>, \<open>ValueError\<close>, \<open>MergeError\<close>: the exceptions of those names.
  \<open>InvalidRange\<close>: the branch \<^verbatim>\<open>st.error("Error: Start Date must be before End Date.")\<close>,
  taken instead of every computation of the tabs.
\<close>

datatype error =
  KeyError string | NotASeries string | TypeError | ValueError | MergeError | InvalidRange

text \<open>
  The pandas functions whose results the script takes as they come:
  \<^verbatim>\<open>pd.to_datetime(series, errors='coerce')\<close> and \<^verbatim>\<open>pd.to_numeric(series, errors='coerce')\<close>
  return the converted column, with the missing value where a cell does not parse, or
  raise (a recent pandas raises \<^verbatim>\<open>ValueError\<close> on dates of mixed UTC offsets);
  \<^verbatim>\<open>sort_values\<close> takes the position of the sort column and the rows and returns them
  reordered (its default algorithm is not stable, so the order among equal keys is the
  library's choice).
\<close>

record pandas =
  to_datetime :: "val list \<Rightarrow> error + val list"
  to_numeric :: "val list \<Rightarrow> error + val list"
  sort_values :: "nat \<Rightarrow> val list list \<Rightarrow> val list list"

text \<open>A cell read beyond the end of a row is missing.\<close>

definition cell :: "val list \<Rightarrow> nat \<Rightarrow> val" where
  "cell r i = (if i < length r then r ! i else Null)"

fun index_of :: "string \<Rightarrow> string list \<Rightarrow> nat" where
  "index_of l [] = 0"
| "index_of l (c # cs) = (if c = l then 0 else Suc (index_of l cs))"

text \<open>\<^verbatim>\<open>df[l]\<close>: the position of the column labelled \<open>l\<close>, or the exception raised.\<close>

definition loc :: "string list \<Rightarrow> string \<Rightarrow> error + nat" where
  "loc cs l =
     (if l \<notin> set cs then Inl (KeyError l)
      else if 1 < count_list cs l then Inl (NotASeries l)
      else Inr (index_of l cs))"

text \<open>Sequencing: an exception ends the script, so the first error is the result.\<close>

definition bindE :: "error + 'a \<Rightarrow> ('a \<Rightarrow> error + 'b) \<Rightarrow> error + 'b" where
  "bindE m f = (case m of Inl e \<Rightarrow> Inl e | Inr x \<Rightarrow> f x)"

section \<open>The dataset loader (lines 31 to 41)\<close>

text \<open>
  \<^verbatim>\<open>str.strip()\<close> removes leading and trailing whitespace. Among the code points below
  256 Python's whitespace is 9 to 13, 28 to 32, 133 (next line) and 160 (no-break space).
\<close>

definition isspace :: "char \<Rightarrow> bool" where
  "isspace c = (c \<in> {CHR 0x09, CHR 0x0A, CHR 0x0B, CHR 0x0C, CHR 0x0D,
                      CHR 0x1C, CHR 0x1D, CHR 0x1E, CHR 0x1F, CHR 0x20,
                      CHR 0x85, CHR 0xA0})"

definition strip :: "string \<Rightarrow> string" where
  "strip s = rev (dropWhile isspace (rev (dropWhile isspace s)))"

text \<open>\<^verbatim>\<open>df.columns = df.columns.str.strip()\<close>\<close>

definition strip_columns :: "frame \<Rightarrow> frame" where
  "strip_columns df = df\<lparr>columns := map strip (columns df)\<rparr>"

text \<open>The series \<^verbatim>\<open>df[l]\<close> for the column at position \<open>i\<close>.\<close>

definition column :: "nat \<Rightarrow> frame \<Rightarrow> val list" where
  "column i df = map (\<lambda>r. cell r i) (body df)"

text \<open>
  \<^verbatim>\<open>df[l] = series\<close> for the column at position \<open>i\<close>: the assignment aligns the series
  with the rows, and a row the series has no entry for gets the missing value.
\<close>

definition value_at :: "val list \<Rightarrow> nat \<Rightarrow> val" where
  "value_at vs k = (if k < length vs then vs ! k else Null)"

definition set_cell :: "nat \<Rightarrow> val \<Rightarrow> val list \<Rightarrow> val list" where
  "set_cell i v r = (r @ replicate (Suc i - length r) Null)[i := v]"

definition set_column :: "nat \<Rightarrow> val list \<Rightarrow> frame \<Rightarrow> frame" where
  "set_column i vs df =
     df\<lparr>body := map (\<lambda>k. set_cell i (value_at vs k) (body df ! k)) [0..<length (body df)]\<rparr>"

definition isna :: "val \<Rightarrow> bool" where
  "isna v = (v = Null)"

text \<open>\<^verbatim>\<open>df.dropna(subset=[...])\<close>, the subset given by column positions.\<close>

definition dropna :: "nat list \<Rightarrow> frame \<Rightarrow> frame" where
  "dropna ixs df = df\<lparr>body := filter (\<lambda>r. \<forall>i \<in> set ixs. \<not> isna (cell r i)) (body df)\<rparr>"

text \<open>
  The order \<^verbatim>\<open>sort_values\<close> sorts dates by: ascending instants, missing values last.
  \<open>sorts srt\<close> says that \<open>srt\<close> returns the rows it is given, in that order of the
  sort column; it is what the statements below assume of the library's sort.
\<close>

definition date_key :: "val \<Rightarrow> nat \<times> int" where
  "date_key v = (case v of Ts t \<Rightarrow> (0, t) | TsTz t \<Rightarrow> (0, t) | _ \<Rightarrow> (1, 0))"

definition sorts :: "(nat \<Rightarrow> val list list \<Rightarrow> val list list) \<Rightarrow> bool" where
  "sorts srt =
     (\<forall>i rows. mset (srt i rows) = mset rows \<and>
               sorted (map (\<lambda>r. date_key (cell r i)) (srt i rows)))"

text \<open>A converted date is timezone-naive when it is missing or a timestamp without timezone.\<close>

definition is_naive :: "val \<Rightarrow> bool" where
  "is_naive v = (case v of Ts t \<Rightarrow> True | Null \<Rightarrow> True | _ \<Rightarrow> False)"

text \<open>Lines 31 to 35; \<open>raw\<close> is the frame \<^verbatim>\<open>pd.read_csv(DATA_FILENAME)\<close> returned.\<close>

definition load_prices :: "pandas \<Rightarrow> frame \<Rightarrow> error + frame" where
  "load_prices lib raw =
     (let df1 = strip_columns raw in
      bindE (loc (columns df1) ''Date'') (\<lambda>d.
      bindE (to_datetime lib (column d df1)) (\<lambda>ds.
        let df2 = (set_column d ds df1)\<lparr>naive_date := list_all is_naive ds\<rparr> in
        bindE (loc (columns df2) ''Adj Close'') (\<lambda>a.
        bindE (to_numeric lib (column a df2)) (\<lambda>ns.
          let df3 = set_column a ns df2;
              df4 = dropna [d, a] df3 in
          bindE (loc (columns df4) ''Date'') (\<lambda>d'.
            Inr (df4\<lparr>body := sort_values lib d' (body df4)\<rparr>)))))))"

text \<open>Lines 38 to 41; \<open>raw\<close> is the frame \<^verbatim>\<open>pd.read_csv(FULL_DATA_FILENAME)\<close> returned.\<close>

definition load_anomalies :: "pandas \<Rightarrow> frame \<Rightarrow> error + frame" where
  "load_anomalies lib raw =
     (let df1 = strip_columns raw in
      bindE (loc (columns df1) ''Date'') (\<lambda>d.
      bindE (to_datetime lib (column d df1)) (\<lambda>ds.
        let df2 = (set_column d ds df1)\<lparr>naive_date := list_all is_naive ds\<rparr>;
            df3 = dropna [d] df2 in
        bindE (loc (columns df3) ''Date'') (\<lambda>d'.
          Inr (df3\<lparr>body := sort_values lib d' (body df3)\<rparr>)))))"

section \<open>The filter and overlap pipeline (lines 44 to 117)\<close>

text \<open>The widgets' values: two dates, a ticker taken from the price table, two model names.\<close>

record params =
  start_date :: date
  end_date :: date
  selected_ticker :: val
  model_1 :: string
  model_2 :: string

text \<open>Line 52: the names the two model select boxes offer.\<close>

definition model_options :: "string list" where
  "model_options = [''baseline'', ''svm'', ''dbscan_pca'', ''dbscan_nonpca'', ''isolation tree'']"

definition ns_per_day :: int where
  "ns_per_day = 86400000000000"

text \<open>\<^verbatim>\<open>pd.to_datetime(start_date)\<close> on a \<^verbatim>\<open>datetime.date\<close>: midnight of that day.\<close>

definition to_timestamp :: "date \<Rightarrow> timestamp" where
  "to_timestamp d = d * ns_per_day"

text \<open>
  Element-wise comparisons of a series with a scalar. On a timezone-naive datetime
  column a missing date compares false. \<^verbatim>\<open>==\<close> is Python's equality: a missing value
  equals nothing, itself included, and a boolean equals the number 1 or 0.
\<close>

definition ge_ts :: "val \<Rightarrow> timestamp \<Rightarrow> bool" where
  "ge_ts v t = (case v of Ts x \<Rightarrow> t \<le> x | _ \<Rightarrow> False)"

definition le_ts :: "val \<Rightarrow> timestamp \<Rightarrow> bool" where
  "le_ts v t = (case v of Ts x \<Rightarrow> x \<le> t | _ \<Rightarrow> False)"

fun py_eq :: "val \<Rightarrow> val \<Rightarrow> bool" where
  "py_eq (Num x) (Num y) = (x = y)"
| "py_eq (Num x) (Bool b) = (x = (if b then 1 else 0))"
| "py_eq (Bool b) (Num y) = ((if b then 1 else 0) = y)"
| "py_eq (Bool a) (Bool b) = (a = b)"
| "py_eq (Str s) (Str u) = (s = u)"
| "py_eq (Ts s) (Ts u) = (s = u)"
| "py_eq (TsTz s) (TsTz u) = (s = u)"
| "py_eq _ _ = False"

text \<open>
  The row mask
  \<^verbatim>\<open>(df['Date'] >= pd.to_datetime(start_date)) & (df['Date'] <= pd.to_datetime(end_date)) & (df['Ticker'] == selected_ticker)\<close>
  at one row, for the columns at positions \<open>d\<close> and \<open>t\<close>.
\<close>

definition window_mask :: "nat \<Rightarrow> nat \<Rightarrow> params \<Rightarrow> val list \<Rightarrow> bool" where
  "window_mask d t p r =
     (ge_ts (cell r d) (to_timestamp (start_date p)) \<and>
      le_ts (cell r d) (to_timestamp (end_date p)) \<and>
      py_eq (cell r t) (selected_ticker p))"

text \<open>\<^verbatim>\<open>df[mask]\<close>: the rows where the mask holds, in order.\<close>

definition select_rows :: "(val list \<Rightarrow> bool) \<Rightarrow> frame \<Rightarrow> frame" where
  "select_rows row_mask df = df\<lparr>body := filter row_mask (body df)\<rparr>"

text \<open>\<^verbatim>\<open>df['Date'] >= pd.to_datetime(...)\<close>: the column looked up, and its dtype checked.\<close>

definition date_column :: "frame \<Rightarrow> error + nat" where
  "date_column df =
     bindE (loc (columns df) ''Date'') (\<lambda>d.
       if naive_date df then Inr d else Inl TypeError)"

text \<open>Lines 68 to 70 and again 91 to 93.\<close>

definition filter_prices :: "frame \<Rightarrow> params \<Rightarrow> error + frame" where
  "filter_prices stock_df p =
     bindE (date_column stock_df) (\<lambda>d.
     bindE (date_column stock_df) (\<lambda>d'.
     bindE (loc (columns stock_df) ''Ticker'') (\<lambda>t.
       Inr (select_rows (window_mask d t p) stock_df))))"

text \<open>Lines 96 to 99 for \<open>m = model_1\<close>, lines 101 to 104 for \<open>m = model_2\<close>.\<close>

definition model_anomalies :: "frame \<Rightarrow> params \<Rightarrow> string \<Rightarrow> error + frame" where
  "model_anomalies full_data_df p m =
     bindE (date_column full_data_df) (\<lambda>d.
     bindE (date_column full_data_df) (\<lambda>d'.
     bindE (loc (columns full_data_df) ''Ticker'') (\<lambda>t.
     bindE (loc (columns full_data_df) m) (\<lambda>f.
       Inr (select_rows (\<lambda>r. window_mask d t p r \<and> py_eq (cell r f) (Num 1))
              full_data_df)))))"

text \<open>\<^verbatim>\<open>df[['Date', 'Ticker', 'Adj Close']]\<close>: the listed columns, in the listed order.\<close>

fun locs :: "string list \<Rightarrow> string list \<Rightarrow> error + nat list" where
  "locs cs [] = Inr []"
| "locs cs (l # ls) = bindE (loc cs l) (\<lambda>i. bindE (locs cs ls) (\<lambda>js. Inr (i # js)))"

definition project :: "string list \<Rightarrow> frame \<Rightarrow> error + frame" where
  "project ls df =
     bindE (locs (columns df) ls) (\<lambda>js.
       Inr (df\<lparr>columns := ls, body := map (\<lambda>r. map (cell r) js) (body df)\<rparr>))"

text \<open>
  \<^verbatim>\<open>pd.merge(left, right, on=['Date', 'Ticker'])\<close>, an inner join (the default, and the
  \<^verbatim>\<open>how='inner'\<close> of lines 110 to 117): for every left row in order, every right row with
  the same key in order, the left row followed by the right row's other cells. Other
  columns named alike on both sides get the suffixes \<^verbatim>\<open>_x\<close> and \<^verbatim>\<open>_y\<close>; when a suffix
  makes two labels of one side equal that were not equal before, pandas raises
  \<^verbatim>\<open>MergeError\<close>.
\<close>

definition key_of :: "nat \<Rightarrow> nat \<Rightarrow> val list \<Rightarrow> val \<times> val" where
  "key_of d t r = (cell r d, cell r t)"

definition other_columns :: "string list \<Rightarrow> string list" where
  "other_columns rc = filter (\<lambda>c. c \<noteq> ''Date'' \<and> c \<noteq> ''Ticker'') rc"

definition left_labels :: "string list \<Rightarrow> string list \<Rightarrow> string list" where
  "left_labels lc rc = map (\<lambda>c. if c \<in> set (other_columns rc) then c @ ''_x'' else c) lc"

definition right_labels :: "string list \<Rightarrow> string list \<Rightarrow> string list" where
  "right_labels lc rc = map (\<lambda>c. if c \<in> set lc then c @ ''_y'' else c) (other_columns rc)"

definition suffix_clash :: "string list \<Rightarrow> string list \<Rightarrow> bool" where
  "suffix_clash old new =
     (\<exists>j \<in> set [0..<length new]. new ! j \<in> set (take j new) \<and> old ! j \<notin> set (take j old))"

definition merge_row :: "nat \<Rightarrow> nat \<Rightarrow> nat \<Rightarrow> nat \<Rightarrow> val list \<Rightarrow> val list \<Rightarrow> val list" where
  "merge_row nl nr dr tr l r =
     map (cell l) [0..<nl] @ map (cell r) (filter (\<lambda>i. i \<noteq> dr \<and> i \<noteq> tr) [0..<nr])"

definition join_rows ::
  "nat \<Rightarrow> nat \<Rightarrow> nat \<Rightarrow> nat \<Rightarrow> nat \<Rightarrow> nat \<Rightarrow> val list list \<Rightarrow> val list list \<Rightarrow> val list list" where
  "join_rows nl nr d1 t1 d2 t2 ls rs =
     concat (map (\<lambda>l. map (merge_row nl nr d2 t2 l)
                              (filter (\<lambda>r. key_of d2 t2 r = key_of d1 t1 l) rs)) ls)"

definition merge :: "frame \<Rightarrow> frame \<Rightarrow> error + frame" where
  "merge left right =
     bindE (loc (columns left) ''Date'') (\<lambda>dl.
     bindE (loc (columns left) ''Ticker'') (\<lambda>tl.
     bindE (loc (columns right) ''Date'') (\<lambda>dr.
     bindE (loc (columns right) ''Ticker'') (\<lambda>tr.
       if suffix_clash (columns left) (left_labels (columns left) (columns right)) \<or>
          suffix_clash (other_columns (columns right))
            (right_labels (columns left) (columns right))
       then Inl MergeError
       else
         Inr (left\<lparr>columns := left_labels (columns left) (columns right) @
                               right_labels (columns left) (columns right),
                   body := join_rows (length (columns left)) (length (columns right))
                             dl tl dr tr (body left) (body right)\<rparr>)))))"

text \<open>The tables the second tab computes, under the script's variable names.\<close>

record view =
  filtered_stock_df :: frame
  model_1_anomalies :: frame
  model_2_anomalies :: frame
  overlapping_anomalies :: frame
  model_1_merged :: frame
  model_2_merged :: frame
  overlapping_merged :: frame

text \<open>
  Lines 44 to 117, given the widgets' values: the look-ups that feed the widgets
  (\<^verbatim>\<open>stock_df['Date'].min()\<close> and \<^verbatim>\<open>.max()\<close> of lines 44 and 45, \<^verbatim>\<open>stock_df['Ticker'].unique()\<close>
  of line 48), the date check of line 57, the first tab's filter (lines 68 to 70, the
  same expression as the second tab's and overwritten by it), then the second tab's
  tables.
\<close>

definition computeView :: "frame \<Rightarrow> frame \<Rightarrow> params \<Rightarrow> error + view" where
  "computeView stock_df full_data_df p =
     bindE (loc (columns stock_df) ''Date'') (\<lambda>d0.
     bindE (loc (columns stock_df) ''Ticker'') (\<lambda>t0.
       if end_date p < start_date p then Inl InvalidRange
       else
         bindE (filter_prices stock_df p) (\<lambda>tab1_filtered.
         bindE (filter_prices stock_df p) (\<lambda>filtered.
         bindE (model_anomalies full_data_df p (model_1 p)) (\<lambda>m1.
         bindE (model_anomalies full_data_df p (model_2 p)) (\<lambda>m2.
         bindE (merge m1 m2) (\<lambda>overlapping.
         bindE (project [''Date'', ''Ticker'', ''Adj Close''] filtered) (\<lambda>prices1.
         bindE (merge m1 prices1) (\<lambda>m1_merged.
         bindE (project [''Date'', ''Ticker'', ''Adj Close''] filtered) (\<lambda>prices2.
         bindE (merge m2 prices2) (\<lambda>m2_merged.
         bindE (project [''Date'', ''Ticker'', ''Adj Close''] filtered) (\<lambda>prices3.
         bindE (merge overlapping prices3) (\<lambda>ov_merged.
           Inr \<lparr>filtered_stock_df = filtered,
                model_1_anomalies = m1, model_2_anomalies = m2,
                overlapping_anomalies = overlapping,
                model_1_merged = m1_merged, model_2_merged = m2_merged,
                overlapping_merged = ov_merged\<rparr>)))))))))))))"

text \<open>
  The script's variables as a store: the two source tables, and the tables of the tabs
  once a run has assigned them. A run of lines 44 to 117 reads the source tables and
  assigns the others.
\<close>

record store =
  stock_df :: frame
  full_data_df :: frame
  tables :: "view option"

definition run_tabs :: "params \<Rightarrow> store \<Rightarrow> error + store" where
  "run_tabs p s =
     bindE (computeView (stock_df s) (full_data_df s) p) (\<lambda>v. Inr (s\<lparr>tables := Some v\<rparr>))"

section \<open>Tables the pipeline accepts\<close>

text \<open>
  The tables for which the statements below assert that the pipeline returns its tables:
  the Date column is timezone-naive, the columns the pipeline reads are there once, and
  the Ticker column holds text in at least one row, so that it has the text dtype in
  both tables (\<^verbatim>\<open>pd.merge\<close> refuses key columns of unlike dtypes, text against float).
  For the anomaly table the labels are distinct and none is \<^verbatim>\<open>Adj Close\<close>, so that the
  price join adds the column under that name.
\<close>

definition is_text :: "val \<Rightarrow> bool" where
  "is_text v = (case v of Str s \<Rightarrow> True | _ \<Rightarrow> False)"

definition usable_prices :: "frame \<Rightarrow> bool" where
  "usable_prices df =
     (naive_date df \<and>
      count_list (columns df) ''Date'' = 1 \<and>
      count_list (columns df) ''Ticker'' = 1 \<and>
      count_list (columns df) ''Adj Close'' = 1 \<and>
      list_ex (\<lambda>r. is_text (cell r (index_of ''Ticker'' (columns df)))) (body df))"

definition usable_anomalies :: "frame \<Rightarrow> params \<Rightarrow> bool" where
  "usable_anomalies df p =
     (naive_date df \<and> distinct (columns df) \<and>
      ''Date'' \<in> set (columns df) \<and> ''Ticker'' \<in> set (columns df) \<and>
      model_1 p \<in> set (columns df) \<and> model_2 p \<in> set (columns df) \<and>
      ''Adj Close'' \<notin> set (columns df) \<and>
      list_ex (\<lambda>r. is_text (cell r (index_of ''Ticker'' (columns df)))) (body df))"

section \<open>Example inputs\<close>

text \<open>
  A library instance for the examples: a date parser that knows three dates, a number
  parser that accepts the cells already numeric, and a stable sort. Small files and
  tables: a price file with padded header names, an unparseable date, an unparseable
  price and a row later on a day than midnight; an anomaly file with an unparseable date;
  files and tables whose headers differ from the expected names in letter case; the
  loaded price and anomaly tables; the widgets' values.
\<close>

definition ex_parse_date :: "val \<Rightarrow> val" where
  "ex_parse_date v =
     (if v = Str ''2024-01-01'' then Ts (to_timestamp 19723)
      else if v = Str ''2024-01-02'' then Ts (to_timestamp 19724)
      else if v = Str ''2024-01-02 15:30'' then Ts (to_timestamp 19724 + 55800000000000)
      else Null)"

definition ex_parse_number :: "val \<Rightarrow> val" where
  "ex_parse_number v = (case v of Num x \<Rightarrow> Num x | _ \<Rightarrow> Null)"

definition ex_lib :: pandas where
  "ex_lib = \<lparr>to_datetime = (\<lambda>vs. Inr (map ex_parse_date vs)),
             to_numeric = (\<lambda>vs. Inr (map ex_parse_number vs)),
             sort_values = (\<lambda>i. sort_key (\<lambda>r. date_key (cell r i)))\<rparr>"

definition ex_raw_prices :: frame where
  "ex_raw_prices =
     \<lparr>columns = ['' Date'', ''Ticker '', ''Adj Close''],
      body = [[Str ''2024-01-02'', Str ''ABC'', Num 11],
              [Str ''not-a-date'', Str ''ABC'', Num 12],
              [Str ''2024-01-01'', Str ''ABC'', Num 10],
              [Str ''2024-01-01'', Str ''XYZ'', Str ''n/a''],
              [Str ''2024-01-02 15:30'', Str ''ABC'', Num 12]],
      naive_date = False\<rparr>"

definition ex_raw_anomalies :: frame where
  "ex_raw_anomalies =
     \<lparr>columns = [''Date'', ''Ticker'', ''baseline'', ''svm''],
      body = [[Str ''2024-01-02'', Str ''ABC'', Num 1, Num 0],
              [Str ''??'', Str ''ABC'', Num 1, Num 1]],
      naive_date = False\<rparr>"

definition ex_raw_lowercase :: frame where
  "ex_raw_lowercase =
     \<lparr>columns = [''date'', ''Ticker'', ''Adj Close''],
      body = [[Str ''2024-01-01'', Str ''ABC'', Num 10]],
      naive_date = False\<rparr>"

definition ex_raw_lowercase_adj :: frame where
  "ex_raw_lowercase_adj =
     \<lparr>columns = [''Date'', ''Ticker'', ''adj close''],
      body = [[Str ''2024-01-01'', Str ''ABC'', Num 10]],
      naive_date = False\<rparr>"

definition ex_stock_lowercase_ticker :: frame where
  "ex_stock_lowercase_ticker =
     \<lparr>columns = [''Date'', ''ticker'', ''Adj Close''],
      body = [[Ts (to_timestamp 19723), Str ''ABC'', Num 10]],
      naive_date = True\<rparr>"

definition ex_full :: frame where
  "ex_full =
     \<lparr>columns = [''Date'', ''Ticker'', ''baseline'', ''svm''],
      body = [[Ts (to_timestamp 19723), Str ''ABC'', Num 0, Num 1],
              [Ts (to_timestamp 19724), Str ''ABC'', Num 1, Num 1],
              [Ts (to_timestamp 19724), Str ''XYZ'', Num 1, Null]],
      naive_date = True\<rparr>"

definition ex_params :: params where
  "ex_params = \<lparr>start_date = 19723, end_date = 19724, selected_ticker = Str ''ABC'',
                 model_1 = ''baseline'', model_2 = ''svm''\<rparr>"

definition ex_stock :: frame where
  "ex_stock =
     \<lparr>columns = [''Date'', ''Ticker'', ''Adj Close''],
      body = [[Ts (to_timestamp 19723), Str ''ABC'', Num 10],
              [Ts (to_timestamp 19724), Str ''ABC'', Num 11],
              [Ts (to_timestamp 19724 + 55800000000000), Str ''ABC'', Num 12]],
      naive_date = True\<rparr>"

section \<open>Auxiliary facts\<close>

lemma bindE_simps [simp]:
  "bindE (Inl e) f = Inl e" "bindE (Inr x) f = f x"
  by (simp_all add: bindE_def)

lemma bindE_eq_Inr:
  "bindE m f = Inr y \<longleftrightarrow> (\<exists>x. m = Inr x \<and> f x = Inr y)"
  by (cases m) simp_all

lemma bindE_eq_Inl:
  "bindE m f = Inl e \<longleftrightarrow> m = Inl e \<or> (\<exists>x. m = Inr x \<and> f x = Inl e)"
  by (cases m) simp_all

lemma index_of_less: "l \<in> set cs \<Longrightarrow> index_of l cs < length cs"
  by (induction cs) auto

lemma index_of_nth: "l \<in> set cs \<Longrightarrow> cs ! index_of l cs = l"
  by (induction cs) auto

lemma loc_Inr:
  assumes "loc cs l = Inr i"
  shows "i < length cs" and "cs ! i = l" and "count_list cs l = 1"
proof -
  from assms have m: "l \<in> set cs" and c: "\<not> 1 < count_list cs l" and i: "i = index_of l cs"
    by (auto simp: loc_def split: if_splits)
  show "i < length cs" using m i by (simp add: index_of_less)
  show "cs ! i = l" using m i by (simp add: index_of_nth)
  from m have "count_list cs l \<noteq> 0" by (simp add: count_list_0_iff)
  with c show "count_list cs l = 1" by simp
qed

lemma loc_Inr_iff: "(\<exists>i. loc cs l = Inr i) \<longleftrightarrow> count_list cs l = 1"
proof
  assume "\<exists>i. loc cs l = Inr i"
  then show "count_list cs l = 1" by (auto dest: loc_Inr(3))
next
  assume c: "count_list cs l = 1"
  then have "count_list cs l \<noteq> 0" by simp
  then have "l \<in> set cs" by (simp add: count_list_0_iff)
  with c show "\<exists>i. loc cs l = Inr i" by (simp add: loc_def)
qed

lemma loc_KeyError: "l \<notin> set cs \<Longrightarrow> loc cs l = Inl (KeyError l)"
  by (simp add: loc_def)

lemma loc_Inl_cases:
  "loc cs l = Inl e \<Longrightarrow> e = KeyError l \<or> e = NotASeries l"
  by (auto simp: loc_def split: if_splits)

lemma loc_distinct_labels:
  "loc cs l = Inr i \<Longrightarrow> loc cs l' = Inr j \<Longrightarrow> l \<noteq> l' \<Longrightarrow> i \<noteq> j"
  by (auto dest: loc_Inr(2))

lemma length_set_cell: "i < length (set_cell i v r)"
proof -
  have "i < length r + (Suc i - length r)" by arith
  then show ?thesis by (simp add: set_cell_def)
qed

lemma cell_set_cell_same: "cell (set_cell i v r) i = v"
proof -
  have "i < length r + (Suc i - length r)" by arith
  then show ?thesis by (simp add: cell_def set_cell_def)
qed

lemma cell_set_cell_other:
  assumes "i \<noteq> j"
  shows "cell (set_cell i v r) j = cell r j"
proof (cases "j < length r")
  case True
  then show ?thesis using assms by (simp add: cell_def set_cell_def nth_append)
next
  case False
  then show ?thesis using assms by (auto simp: cell_def set_cell_def nth_append)
qed

lemma column_strip_columns [simp]: "column i (strip_columns df) = column i df"
  by (simp add: column_def strip_columns_def)

lemma column_set_column_other:
  assumes "a \<noteq> d"
  shows "column a ((set_column d vs df)\<lparr>naive_date := b\<rparr>) = column a df"
proof -
  have "map (\<lambda>k. cell (body df ! k) a) [0..<length (body df)] = map (\<lambda>r. cell r a) (body df)"
    by (rule nth_equalityI) simp_all
  then show ?thesis
    using assms by (simp add: column_def set_column_def cell_set_cell_other comp_def)
qed

lemma sorts_ex_lib: "sorts (sort_values ex_lib)"
  by (simp add: sorts_def ex_lib_def)

lemma sortsD:
  assumes "sorts srt"
  shows "mset (srt i rows) = mset rows"
    and "set (srt i rows) = set rows"
    and "sorted (map (\<lambda>r. date_key (cell r i)) (srt i rows))"
proof -
  from assms show m: "mset (srt i rows) = mset rows" by (simp add: sorts_def)
  from m show "set (srt i rows) = set rows" by (rule mset_eq_setD)
  from assms show "sorted (map (\<lambda>r. date_key (cell r i)) (srt i rows))"
    by (simp add: sorts_def)
qed

lemma sorted_Ts:
  "\<forall>v \<in> set vs. \<exists>t. v = Ts t \<Longrightarrow> sorted (map date_key vs) \<Longrightarrow> \<exists>ts. vs = map Ts ts \<and> sorted ts"
proof (induction vs)
  case Nil
  then show ?case by simp
next
  case (Cons v vs)
  then obtain ts where ts: "vs = map Ts ts" "sorted ts" by auto
  from Cons.prems(1) obtain t where t: "v = Ts t" by auto
  have "\<forall>u \<in> set ts. t \<le> u"
  proof
    fix u assume "u \<in> set ts"
    then have "Ts u \<in> set vs" using ts(1) by simp
    with Cons.prems(2) have "date_key v \<le> date_key (Ts u)" by auto
    then show "t \<le> u" by (simp add: t date_key_def)
  qed
  with ts t have "v # vs = map Ts (t # ts) \<and> sorted (t # ts)" by simp
  then show ?case by (rule exI [of _ "t # ts"])
qed

lemma load_anomalies_Inr:
  assumes "loc (map strip (columns raw)) ''Date'' = Inr d"
    and "to_datetime lib (column d raw) = Inr ds"
  shows "load_anomalies lib raw =
           Inr (raw\<lparr>columns := map strip (columns raw),
                    body := sort_values lib d
                      (filter (\<lambda>r. cell r d \<noteq> Null)
                        (map (\<lambda>k. set_cell d (value_at ds k) (body raw ! k))
                          [0..<length (body raw)])),
                    naive_date := list_all is_naive ds\<rparr>)"
  using assms
  by (simp add: load_anomalies_def Let_def strip_columns_def set_column_def dropna_def
      isna_def column_def)

lemma columns_strip_columns [simp]: "columns (strip_columns df) = map strip (columns df)"
  by (simp add: strip_columns_def)

lemma body_strip_columns [simp]: "body (strip_columns df) = body df"
  by (simp add: strip_columns_def)

lemma columns_set_column [simp]: "columns (set_column i vs df) = columns df"
  by (simp add: set_column_def)

lemma body_set_column_twice:
  "body (set_column a ns ((set_column d ds df)\<lparr>naive_date := b\<rparr>)) =
     map (\<lambda>k. set_cell a (value_at ns k) (set_cell d (value_at ds k) (body df ! k)))
       [0..<length (body df)]"
  by (simp add: set_column_def cong: map_cong)

lemma load_prices_Inr:
  assumes d: "loc (map strip (columns raw)) ''Date'' = Inr d"
    and ds: "to_datetime lib (column d raw) = Inr ds"
    and a: "loc (map strip (columns raw)) ''Adj Close'' = Inr a"
    and ns: "to_numeric lib (column a raw) = Inr ns"
  shows "load_prices lib raw =
           Inr (raw\<lparr>columns := map strip (columns raw),
                    body := sort_values lib d
                      (filter (\<lambda>r. cell r d \<noteq> Null \<and> cell r a \<noteq> Null)
                        (map (\<lambda>k. set_cell a (value_at ns k)
                                  (set_cell d (value_at ds k) (body raw ! k)))
                          [0..<length (body raw)])),
                    naive_date := list_all is_naive ds\<rparr>)"
proof -
  have neq: "a \<noteq> d" using loc_distinct_labels [OF a d] by simp
  have col: "column a ((set_column d ds (strip_columns raw))\<lparr>naive_date := list_all is_naive ds\<rparr>)
      = column a raw"
    using neq by (simp add: column_set_column_other)
  have bd: "body (set_column a ns ((set_column d ds (strip_columns raw))\<lparr>naive_date := list_all is_naive ds\<rparr>))
      = map (\<lambda>k. set_cell a (value_at ns k) (set_cell d (value_at ds k) (body raw ! k)))
          [0..<length (body raw)]"
    by (simp add: body_set_column_twice)
  show ?thesis
    by (simp add: load_prices_def Let_def d ds a ns col dropna_def isna_def bd)
      (simp add: set_column_def strip_columns_def)
qed

lemma load_anomalies_Inl:
  assumes "load_anomalies lib raw = Inl e"
  shows "loc (map strip (columns raw)) ''Date'' = Inl e \<or>
    (\<exists>d. loc (map strip (columns raw)) ''Date'' = Inr d \<and>
         to_datetime lib (column d raw) = Inl e)"
proof (cases "loc (map strip (columns raw)) ''Date''")
  case (Inl e')
  with assms show ?thesis by (simp add: load_anomalies_def Let_def)
next
  case d: (Inr d)
  show ?thesis
  proof (cases "to_datetime lib (column d raw)")
    case (Inl e')
    with assms d show ?thesis by (simp add: load_anomalies_def Let_def)
  next
    case (Inr ds)
    from load_anomalies_Inr [OF d Inr] assms show ?thesis by simp
  qed
qed

lemma load_prices_Inl:
  assumes "load_prices lib raw = Inl e"
  shows "loc (map strip (columns raw)) ''Date'' = Inl e \<or>
    (\<exists>d. loc (map strip (columns raw)) ''Date'' = Inr d \<and>
      (to_datetime lib (column d raw) = Inl e \<or>
       (\<exists>ds. to_datetime lib (column d raw) = Inr ds \<and>
         (loc (map strip (columns raw)) ''Adj Close'' = Inl e \<or>
          (\<exists>a. loc (map strip (columns raw)) ''Adj Close'' = Inr a \<and>
               to_numeric lib (column a raw) = Inl e)))))"
proof (cases "loc (map strip (columns raw)) ''Date''")
  case (Inl e')
  with assms show ?thesis by (simp add: load_prices_def Let_def)
next
  case d: (Inr d)
  show ?thesis
  proof (cases "to_datetime lib (column d raw)")
    case (Inl e')
    with assms d show ?thesis by (simp add: load_prices_def Let_def)
  next
    case ds: (Inr ds)
    show ?thesis
    proof (cases "loc (map strip (columns raw)) ''Adj Close''")
      case (Inl e')
      with assms d ds show ?thesis by (simp add: load_prices_def Let_def)
    next
      case a: (Inr a)
      have neq: "a \<noteq> d" using loc_distinct_labels [OF a d] by simp
      have col: "column a ((set_column d ds (strip_columns raw))\<lparr>naive_date := list_all is_naive ds\<rparr>)
          = column a raw"
        using neq by (simp add: column_set_column_other)
      show ?thesis
      proof (cases "to_numeric lib (column a raw)")
        case (Inl e')
        with assms d ds a col show ?thesis by (simp add: load_prices_def Let_def)
      next
        case (Inr ns)
        from load_prices_Inr [OF d ds a Inr] assms show ?thesis by simp
      qed
    qed
  qed
qed

lemma load_anomalies_inv:
  assumes "load_anomalies lib raw = Inr df"
  obtains d ds where "loc (map strip (columns raw)) ''Date'' = Inr d"
    and "to_datetime lib (column d raw) = Inr ds"
  using assms by (auto simp: load_anomalies_def Let_def bindE_eq_Inr)

lemma load_prices_inv:
  assumes "load_prices lib raw = Inr df"
  obtains d ds a ns where "loc (map strip (columns raw)) ''Date'' = Inr d"
    and "to_datetime lib (column d raw) = Inr ds"
    and "loc (map strip (columns raw)) ''Adj Close'' = Inr a"
    and "to_numeric lib (column a raw) = Inr ns"
proof -
  from assms obtain d ds a ns where d: "loc (map strip (columns raw)) ''Date'' = Inr d"
    and ds: "to_datetime lib (column d raw) = Inr ds"
    and a: "loc (map strip (columns raw)) ''Adj Close'' = Inr a"
    and ns: "to_numeric lib (column a
        ((set_column d ds (strip_columns raw))\<lparr>naive_date := list_all is_naive ds\<rparr>)) = Inr ns"
    by (auto simp: load_prices_def Let_def bindE_eq_Inr)
  have neq: "a \<noteq> d" using loc_distinct_labels [OF a d] by simp
  from ns have "to_numeric lib (column a raw) = Inr ns"
    using neq by (simp add: column_set_column_other)
  with d ds a show ?thesis by (rule that)
qed

lemma kept_anomaly_rows:
  "filter (\<lambda>r. cell r d \<noteq> Null) (map (\<lambda>k. set_cell d (value_at ds k) (rows ! k)) ks)
     = map (\<lambda>k. set_cell d (value_at ds k) (rows ! k)) (filter (\<lambda>k. value_at ds k \<noteq> Null) ks)"
  by (simp add: filter_map comp_def cell_set_cell_same)

lemma kept_price_rows:
  assumes "a \<noteq> d"
  shows "filter (\<lambda>r. cell r d \<noteq> Null \<and> cell r a \<noteq> Null)
       (map (\<lambda>k. set_cell a (value_at ns k) (set_cell d (value_at ds k) (rows ! k))) ks)
     = map (\<lambda>k. set_cell a (value_at ns k) (set_cell d (value_at ds k) (rows ! k)))
         (filter (\<lambda>k. value_at ds k \<noteq> Null \<and> value_at ns k \<noteq> Null) ks)"
  using assms by (simp add: filter_map comp_def cell_set_cell_same cell_set_cell_other)

lemma is_naive_cases: "is_naive v \<Longrightarrow> v \<noteq> Null \<Longrightarrow> \<exists>t. v = Ts t"
  by (cases v) (simp_all add: is_naive_def)

lemma naive_value_at:
  assumes "list_all is_naive ds" and "value_at ds k \<noteq> Null"
  shows "\<exists>t. value_at ds k = Ts t"
proof -
  from assms(2) have k: "k < length ds" by (simp add: value_at_def split: if_splits)
  with assms(1) have "is_naive (ds ! k)" by (simp add: list_all_length)
  with k assms(2) show ?thesis by (simp add: value_at_def is_naive_cases)
qed

lemma loaded_anomalies:
  assumes srt: "sorts (sort_values lib)"
    and d: "loc (map strip (columns raw)) ''Date'' = Inr d"
    and ds: "to_datetime lib (column d raw) = Inr ds"
  shows "\<exists>df. load_anomalies lib raw = Inr df \<and>
      columns df = map strip (columns raw) \<and>
      naive_date df = list_all is_naive ds \<and>
      mset (body df) = mset (map (\<lambda>k. set_cell d (value_at ds k) (body raw ! k))
        (filter (\<lambda>k. value_at ds k \<noteq> Null) [0..<length (body raw)])) \<and>
      (\<forall>r \<in> set (body df). cell r d \<noteq> Null) \<and>
      sorted (map (\<lambda>r. date_key (cell r d)) (body df)) \<and>
      (list_all is_naive ds \<longrightarrow> (\<exists>ts. map (\<lambda>r. cell r d) (body df) = map Ts ts \<and> sorted ts))"
proof -
  let ?f = "\<lambda>k. set_cell d (value_at ds k) (body raw ! k)"
  let ?kept = "filter (\<lambda>r. cell r d \<noteq> Null) (map ?f [0..<length (body raw)])"
  let ?rows = "sort_values lib d ?kept"
  let ?df = "raw\<lparr>columns := map strip (columns raw), body := ?rows,
    naive_date := list_all is_naive ds\<rparr>"
  have ld: "load_anomalies lib raw = Inr ?df" by (rule load_anomalies_Inr [OF d ds])
  have m: "mset ?rows = mset (map ?f (filter (\<lambda>k. value_at ds k \<noteq> Null) [0..<length (body raw)]))"
    by (simp only: sortsD(1) [OF srt] kept_anomaly_rows)
  have s: "set ?rows = set ?kept" by (rule sortsD(2) [OF srt])
  have nn: "\<forall>r \<in> set ?rows. cell r d \<noteq> Null" unfolding s by (simp del: set_map)
  have so: "sorted (map (\<lambda>r. date_key (cell r d)) ?rows)" by (rule sortsD(3) [OF srt])
  have ts: "\<exists>ts. map (\<lambda>r. cell r d) ?rows = map Ts ts \<and> sorted ts" if nv: "list_all is_naive ds"
  proof (rule sorted_Ts)
    show "\<forall>v \<in> set (map (\<lambda>r. cell r d) ?rows). \<exists>t. v = Ts t"
    proof
      fix v assume "v \<in> set (map (\<lambda>r. cell r d) ?rows)"
      then obtain r where r: "r \<in> set ?kept" and v: "v = cell r d" unfolding set_map s by blast
      from r obtain k where k: "r = ?f k" and n: "cell r d \<noteq> Null" by auto
      from n have "value_at ds k \<noteq> Null" by (simp add: k cell_set_cell_same)
      from naive_value_at [OF nv this] show "\<exists>t. v = Ts t"
        by (simp add: v k cell_set_cell_same)
    qed
    show "sorted (map date_key (map (\<lambda>r. cell r d) ?rows))"
      using so by (simp add: comp_def)
  qed
  have b: "body ?df = ?rows" by simp
  show ?thesis
  proof (intro exI conjI)
    show "load_anomalies lib raw = Inr ?df" by (rule ld)
    show "columns ?df = map strip (columns raw)" by simp
    show "naive_date ?df = list_all is_naive ds" by simp
    show "mset (body ?df) = mset (map ?f
        (filter (\<lambda>k. value_at ds k \<noteq> Null) [0..<length (body raw)]))"
      unfolding b by (rule m)
    show "\<forall>r \<in> set (body ?df). cell r d \<noteq> Null" unfolding b by (rule nn)
    show "sorted (map (\<lambda>r. date_key (cell r d)) (body ?df))" unfolding b by (rule so)
    show "list_all is_naive ds \<longrightarrow>
        (\<exists>ts. map (\<lambda>r. cell r d) (body ?df) = map Ts ts \<and> sorted ts)"
      unfolding b by (rule impI) (rule ts)
  qed
qed

lemma loaded_prices:
  assumes srt: "sorts (sort_values lib)"
    and d: "loc (map strip (columns raw)) ''Date'' = Inr d"
    and ds: "to_datetime lib (column d raw) = Inr ds"
    and a: "loc (map strip (columns raw)) ''Adj Close'' = Inr a"
    and ns: "to_numeric lib (column a raw) = Inr ns"
  shows "\<exists>df. load_prices lib raw = Inr df \<and>
      columns df = map strip (columns raw) \<and>
      naive_date df = list_all is_naive ds \<and>
      mset (body df) = mset (map (\<lambda>k. set_cell a (value_at ns k)
                                    (set_cell d (value_at ds k) (body raw ! k)))
        (filter (\<lambda>k. value_at ds k \<noteq> Null \<and> value_at ns k \<noteq> Null) [0..<length (body raw)])) \<and>
      (\<forall>r \<in> set (body df). cell r d \<noteq> Null \<and> cell r a \<noteq> Null) \<and>
      sorted (map (\<lambda>r. date_key (cell r d)) (body df)) \<and>
      (list_all is_naive ds \<longrightarrow> (\<exists>ts. map (\<lambda>r. cell r d) (body df) = map Ts ts \<and> sorted ts))"
proof -
  have neq: "a \<noteq> d" using loc_distinct_labels [OF a d] by simp
  let ?f = "\<lambda>k. set_cell a (value_at ns k) (set_cell d (value_at ds k) (body raw ! k))"
  let ?kept = "filter (\<lambda>r. cell r d \<noteq> Null \<and> cell r a \<noteq> Null) (map ?f [0..<length (body raw)])"
  let ?rows = "sort_values lib d ?kept"
  let ?df = "raw\<lparr>columns := map strip (columns raw), body := ?rows,
    naive_date := list_all is_naive ds\<rparr>"
  have ld: "load_prices lib raw = Inr ?df" by (rule load_prices_Inr [OF d ds a ns])
  have m: "mset ?rows = mset (map ?f
      (filter (\<lambda>k. value_at ds k \<noteq> Null \<and> value_at ns k \<noteq> Null) [0..<length (body raw)]))"
    by (simp only: sortsD(1) [OF srt] kept_price_rows [OF neq])
  have s: "set ?rows = set ?kept" by (rule sortsD(2) [OF srt])
  have nn: "\<forall>r \<in> set ?rows. cell r d \<noteq> Null \<and> cell r a \<noteq> Null"
    unfolding s by (simp del: set_map)
  have so: "sorted (map (\<lambda>r. date_key (cell r d)) ?rows)" by (rule sortsD(3) [OF srt])
  have ts: "\<exists>ts. map (\<lambda>r. cell r d) ?rows = map Ts ts \<and> sorted ts" if nv: "list_all is_naive ds"
  proof (rule sorted_Ts)
    show "\<forall>v \<in> set (map (\<lambda>r. cell r d) ?rows). \<exists>t. v = Ts t"
    proof
      fix v assume "v \<in> set (map (\<lambda>r. cell r d) ?rows)"
      then obtain r where r: "r \<in> set ?kept" and v: "v = cell r d" unfolding set_map s by blast
      from r obtain k where k: "r = ?f k" and n: "cell r d \<noteq> Null" by auto
      have c: "cell (?f k) d = value_at ds k"
        using neq by (simp add: cell_set_cell_same cell_set_cell_other)
      from n have "value_at ds k \<noteq> Null" by (simp add: k c)
      from naive_value_at [OF nv this] show "\<exists>t. v = Ts t"
        by (simp add: v k c)
    qed
    show "sorted (map date_key (map (\<lambda>r. cell r d) ?rows))"
      using so by (simp add: comp_def)
  qed
  have b: "body ?df = ?rows" by simp
  show ?thesis
  proof (intro exI conjI)
    show "load_prices lib raw = Inr ?df" by (rule ld)
    show "columns ?df = map strip (columns raw)" by simp
    show "naive_date ?df = list_all is_naive ds" by simp
    show "mset (body ?df) = mset (map ?f
        (filter (\<lambda>k. value_at ds k \<noteq> Null \<and> value_at ns k \<noteq> Null) [0..<length (body raw)]))"
      unfolding b by (rule m)
    show "\<forall>r \<in> set (body ?df). cell r d \<noteq> Null \<and> cell r a \<noteq> Null"
      unfolding b by (rule nn)
    show "sorted (map (\<lambda>r. date_key (cell r d)) (body ?df))" unfolding b by (rule so)
    show "list_all is_naive ds \<longrightarrow>
        (\<exists>ts. map (\<lambda>r. cell r d) (body ?df) = map Ts ts \<and> sorted ts)"
      unfolding b by (rule impI) (rule ts)
  qed
qed

lemma ex_prices_hyps:
  "loc (map strip (columns ex_raw_prices)) ''Date'' = Inr 0 \<and>
   to_datetime ex_lib (column 0 ex_raw_prices) =
     Inr [Ts (to_timestamp 19724), Null, Ts (to_timestamp 19723), Ts (to_timestamp 19723),
      Ts (to_timestamp 19724 + 55800000000000)] \<and>
   loc (map strip (columns ex_raw_prices)) ''Adj Close'' = Inr 2 \<and>
   to_numeric ex_lib (column 2 ex_raw_prices) = Inr [Num 11, Num 12, Num 10, Null, Num 12]"
  by (simp add: loc_def ex_raw_prices_def strip_def isspace_def ex_lib_def column_def cell_def
      ex_parse_date_def ex_parse_number_def)

lemma ex_anomalies_hyps:
  "loc (map strip (columns ex_raw_anomalies)) ''Date'' = Inr 0 \<and>
   to_datetime ex_lib (column 0 ex_raw_anomalies) = Inr [Ts (to_timestamp 19724), Null]"
  by (simp add: loc_def ex_raw_anomalies_def strip_def isspace_def ex_lib_def column_def cell_def
      ex_parse_date_def)

lemma dropWhile_all: "\<forall>c \<in> set xs. P c \<Longrightarrow> dropWhile P xs = []"
  by (induction xs) auto

lemma strip_padding:
  assumes a: "\<forall>c \<in> set a. isspace c" and b: "\<forall>c \<in> set b. isspace c"
  shows "strip (a @ s @ b) = strip s"
proof -
  have 1: "dropWhile isspace (a @ s @ b) = dropWhile isspace (s @ b)"
    using a by (simp add: dropWhile_append2)
  show ?thesis
  proof (cases "\<forall>c \<in> set s. isspace c")
    case True
    have e1: "dropWhile isspace (a @ s @ b) = []"
      by (rule dropWhile_all) (use a b True in auto)
    have e2: "dropWhile isspace s = []"
      by (rule dropWhile_all) (use True in auto)
    show ?thesis unfolding strip_def e1 e2 by simp
  next
    case False
    then obtain c where "c \<in> set s" "\<not> isspace c" by blast
    then have "dropWhile isspace (s @ b) = dropWhile isspace s @ b"
      by (simp add: dropWhile_append1)
    moreover have "dropWhile isspace (rev b @ rev (dropWhile isspace s))
        = dropWhile isspace (rev (dropWhile isspace s))"
      by (rule dropWhile_append2) (use b in simp)
    ultimately show ?thesis using 1 by (simp add: strip_def)
  qed
qed

lemma strip_unpadded:
  assumes "s \<noteq> []" and "\<not> isspace (hd s)" and "\<not> isspace (last s)"
  shows "strip s = s"
proof -
  from assms(1,2) have 1: "dropWhile isspace s = s" by (cases s) simp_all
  from assms(1,3) have 2: "dropWhile isspace (rev s) = rev s"
    by (cases "rev s") (simp_all add: last_rev [symmetric] hd_rev del: last_rev)
  show ?thesis by (simp add: strip_def 1 2)
qed

lemma load_prices_header:
  "map strip hs = map strip hs' \<Longrightarrow>
   load_prices lib (raw\<lparr>columns := hs\<rparr>) = load_prices lib (raw\<lparr>columns := hs'\<rparr>)"
  by (simp add: load_prices_def strip_columns_def)

lemma load_anomalies_header:
  "map strip hs = map strip hs' \<Longrightarrow>
   load_anomalies lib (raw\<lparr>columns := hs\<rparr>) = load_anomalies lib (raw\<lparr>columns := hs'\<rparr>)"
  by (simp add: load_anomalies_def strip_columns_def)

lemma load_prices_columns:
  assumes "load_prices lib raw = Inr df"
  shows "columns df = map strip (columns raw)"
proof -
  from assms obtain d ds a ns where h: "loc (map strip (columns raw)) ''Date'' = Inr d"
    "to_datetime lib (column d raw) = Inr ds"
    "loc (map strip (columns raw)) ''Adj Close'' = Inr a"
    "to_numeric lib (column a raw) = Inr ns" by (rule load_prices_inv)
  from assms [unfolded load_prices_Inr [OF h]] show ?thesis by auto
qed

lemma load_anomalies_columns:
  assumes "load_anomalies lib raw = Inr df"
  shows "columns df = map strip (columns raw)"
proof -
  from assms obtain d ds where h: "loc (map strip (columns raw)) ''Date'' = Inr d"
    "to_datetime lib (column d raw) = Inr ds" by (rule load_anomalies_inv)
  from assms [unfolded load_anomalies_Inr [OF h]] show ?thesis by auto
qed

lemma loc_found:
  assumes "count_list (map strip hs) l = 1"
  shows "\<exists>i < length hs. loc (map strip hs) l = Inr i \<and> strip (hs ! i) = l"
proof -
  from assms have "\<exists>i. loc (map strip hs) l = Inr i" by (simp only: loc_Inr_iff)
  then obtain i where i: "loc (map strip hs) l = Inr i" ..
  from loc_Inr(1,2) [OF i] have "i < length hs" "strip (hs ! i) = l" by simp_all
  with i show ?thesis by blast
qed

lemma columns_select_rows [simp]: "columns (select_rows m df) = columns df"
  by (simp add: select_rows_def)

lemma body_select_rows [simp]: "body (select_rows m df) = filter m (body df)"
  by (simp add: select_rows_def)

lemma naive_date_select_rows [simp]: "naive_date (select_rows m df) = naive_date df"
  by (simp add: select_rows_def)

lemma date_column_Inr_iff:
  "date_column df = Inr d \<longleftrightarrow> loc (columns df) ''Date'' = Inr d \<and> naive_date df"
  by (cases "loc (columns df) ''Date''") (simp_all add: date_column_def)

lemma date_column_Inr:
  "loc (columns df) ''Date'' = Inr d \<Longrightarrow> naive_date df \<Longrightarrow> date_column df = Inr d"
  by (simp add: date_column_Inr_iff)

lemma filter_prices_Inr:
  "date_column stock = Inr d \<Longrightarrow> loc (columns stock) ''Ticker'' = Inr t \<Longrightarrow>
   filter_prices stock p = Inr (select_rows (window_mask d t p) stock)"
  by (simp add: filter_prices_def)

lemma filter_prices_inv:
  assumes "filter_prices stock p = Inr f"
  obtains d t where "date_column stock = Inr d"
    and "loc (columns stock) ''Ticker'' = Inr t"
    and "f = select_rows (window_mask d t p) stock"
  using assms by (auto simp: filter_prices_def bindE_eq_Inr)

lemma model_anomalies_Inr:
  "date_column full = Inr d \<Longrightarrow> loc (columns full) ''Ticker'' = Inr t \<Longrightarrow>
   loc (columns full) m = Inr f \<Longrightarrow>
   model_anomalies full p m =
     Inr (select_rows (\<lambda>r. window_mask d t p r \<and> py_eq (cell r f) (Num 1)) full)"
  by (simp add: model_anomalies_def)

lemma model_anomalies_inv:
  assumes "model_anomalies full p m = Inr a"
  obtains d t f where "date_column full = Inr d"
    and "loc (columns full) ''Ticker'' = Inr t"
    and "loc (columns full) m = Inr f"
    and "a = select_rows (\<lambda>r. window_mask d t p r \<and> py_eq (cell r f) (Num 1)) full"
  using assms by (auto simp: model_anomalies_def bindE_eq_Inr)

lemma computeView_no_ticker:
  "loc (columns stock) ''Date'' = Inr d \<Longrightarrow> ''Ticker'' \<notin> set (columns stock) \<Longrightarrow>
   computeView stock full p = Inl (KeyError ''Ticker'')"
  by (simp add: computeView_def loc_KeyError)

lemma model_anomalies_no_ticker:
  "date_column full = Inr d \<Longrightarrow> ''Ticker'' \<notin> set (columns full) \<Longrightarrow>
   model_anomalies full p m = Inl (KeyError ''Ticker'')"
  by (simp add: model_anomalies_def loc_KeyError)

lemma model_anomalies_no_model:
  "date_column full = Inr d \<Longrightarrow> loc (columns full) ''Ticker'' = Inr t \<Longrightarrow>
   m \<notin> set (columns full) \<Longrightarrow>
   model_anomalies full p m = Inl (KeyError m)"
  by (simp add: model_anomalies_def loc_KeyError)

lemma load_no_date:
  assumes "''Date'' \<notin> set (map strip (columns raw))"
  shows "load_prices lib raw = Inl (KeyError ''Date'')"
    and "load_anomalies lib raw = Inl (KeyError ''Date'')"
  using assms by (simp_all add: load_prices_def load_anomalies_def Let_def loc_KeyError)

lemma load_prices_no_adj_close:
  assumes d: "loc (map strip (columns raw)) ''Date'' = Inr d"
    and ds: "to_datetime lib (column d raw) = Inr ds"
    and n: "''Adj Close'' \<notin> set (map strip (columns raw))"
  shows "load_prices lib raw = Inl (KeyError ''Adj Close'')"
  using assms by (simp add: load_prices_def Let_def loc_KeyError)

lemma isspace_iff:
  "isspace c \<longleftrightarrow> c \<in> {CHR 0x09, CHR 0x0A, CHR 0x0B, CHR 0x0C, CHR 0x0D,
                      CHR 0x1C, CHR 0x1D, CHR 0x1E, CHR 0x1F, CHR 0x20, CHR 0x85, CHR 0xA0}"
  by (simp only: isspace_def)

lemma py_eq_one: "py_eq v (Num 1) \<longleftrightarrow> v = Num 1 \<or> v = Bool True"
  by (cases v) auto

lemma py_eq_Str: "py_eq v (Str s) \<longleftrightarrow> v = Str s"
  by (cases v) auto

lemma window_mask_iff:
  "window_mask d t p r \<longleftrightarrow>
     (\<exists>x. cell r d = Ts x \<and> to_timestamp (start_date p) \<le> x \<and> x \<le> to_timestamp (end_date p)) \<and>
     py_eq (cell r t) (selected_ticker p)"
  by (cases "cell r d") (simp_all add: window_mask_def ge_ts_def le_ts_def)

lemma to_timestamp_le: "to_timestamp a \<le> to_timestamp b \<longleftrightarrow> a \<le> b"
  by (simp add: to_timestamp_def ns_per_day_def)

lemma to_timestamp_eq: "to_timestamp a = to_timestamp b \<longleftrightarrow> a = b"
  by (simp add: to_timestamp_def ns_per_day_def)

lemma sorted_Ts_filter:
  "map g rows = map Ts ts \<Longrightarrow> sorted ts \<Longrightarrow>
   \<exists>ts'. map g (filter P rows) = map Ts ts' \<and> sorted ts' \<and> set ts' \<subseteq> set ts"
proof (induction rows arbitrary: ts)
  case Nil
  then show ?case by simp
next
  case (Cons r rows)
  then obtain u us where ts: "ts = u # us" and r: "g r = Ts u" and rest: "map g rows = map Ts us"
    by (cases ts) auto
  from Cons.prems(2) ts have su: "sorted us" and le: "\<forall>x \<in> set us. u \<le> x" by simp_all
  from Cons.IH [OF rest su] obtain ts' where ts': "map g (filter P rows) = map Ts ts'"
    "sorted ts'" "set ts' \<subseteq> set us" by blast
  show ?case
  proof (cases "P r")
    case True
    have "map g (filter P (r # rows)) = map Ts (u # ts') \<and> sorted (u # ts') \<and>
        set (u # ts') \<subseteq> set ts"
      using True ts' r le ts by auto
    then show ?thesis by (rule exI [of _ "u # ts'"])
  next
    case False
    have "map g (filter P (r # rows)) = map Ts ts' \<and> sorted ts' \<and> set ts' \<subseteq> set ts"
      using False ts' ts by auto
    then show ?thesis by (rule exI [of _ ts'])
  qed
qed

lemma computeView_filtered:
  assumes "computeView stock full p = Inr v"
  shows "filter_prices stock p = Inr (filtered_stock_df v)"
  using assms
  by (auto simp: computeView_def bindE_eq_Inr split: if_splits)

lemma computeView_models:
  assumes "computeView stock full p = Inr v"
  shows "model_anomalies full p (model_1 p) = Inr (model_1_anomalies v)"
    and "model_anomalies full p (model_2 p) = Inr (model_2_anomalies v)"
  using assms
  by (auto simp: computeView_def bindE_eq_Inr split: if_splits)

lemma ex_load_prices: "load_prices ex_lib ex_raw_prices = Inr ex_stock"
proof -
  note h = ex_prices_hyps
  show ?thesis
    unfolding load_prices_Inr [OF h [THEN conjunct1] h [THEN conjunct2, THEN conjunct1]
        h [THEN conjunct2, THEN conjunct2, THEN conjunct1]
        h [THEN conjunct2, THEN conjunct2, THEN conjunct2]]
    by (simp add: ex_raw_prices_def ex_stock_def ex_lib_def strip_def isspace_def value_at_def
        set_cell_def cell_def upt_rec date_key_def is_naive_def to_timestamp_def ns_per_day_def)
qed

section \<open>The filtered prices\<close>



section \<open>A row is an anomaly of a model when its flag equals 1\<close>

text \<open>
  Claim C10. With the Date, Ticker and model columns in place the anomaly filter of lines
  96 to 104 returns, without raising, the rows of the window and ticker whose flag
  \<^verbatim>\<open>== 1\<close>. Under Python's equality that is the number 1 (written \<^verbatim>\<open>1\<close> or \<^verbatim>\<open>1.0\<close>) and
  the boolean \<^verbatim>\<open>True\<close>, which Python holds equal to 1; every other number, the missing
  value and every text, the text \<^verbatim>\<open>"1"\<close> included, leave the row out.
\<close>

theorem model_flag_equals_one:
  assumes "date_column full = Inr d"
    and "loc (columns full) ''Ticker'' = Inr t"
    and "loc (columns full) m = Inr f"
  shows "\<exists>a. model_anomalies full p m = Inr a \<and>
      body a = filter (\<lambda>r. window_mask d t p r \<and> py_eq (cell r f) (Num 1)) (body full) \<and>
      (\<forall>r \<in> set (body full). window_mask d t p r \<longrightarrow>
         (r \<in> set (body a) \<longleftrightarrow> cell r f = Num 1 \<or> cell r f = Bool True)) \<and>
      (\<forall>stock v. computeView stock full p = Inr v \<longrightarrow>
         (m = model_1 p \<longrightarrow> model_1_anomalies v = a) \<and>
         (m = model_2 p \<longrightarrow> model_2_anomalies v = a))"
proof -
  let ?a = "select_rows (\<lambda>r. window_mask d t p r \<and> py_eq (cell r f) (Num 1)) full"
  have ma: "model_anomalies full p m = Inr ?a" by (rule model_anomalies_Inr [OF assms])
  have b: "body ?a = filter (\<lambda>r. window_mask d t p r \<and> py_eq (cell r f) (Num 1)) (body full)"
    by simp
  have mem: "\<forall>r \<in> set (body full). window_mask d t p r \<longrightarrow>
         (r \<in> set (body ?a) \<longleftrightarrow> cell r f = Num 1 \<or> cell r f = Bool True)"
    by (simp add: py_eq_one)
  have cv: "\<forall>stock v. computeView stock full p = Inr v \<longrightarrow>
         (m = model_1 p \<longrightarrow> model_1_anomalies v = ?a) \<and>
         (m = model_2 p \<longrightarrow> model_2_anomalies v = ?a)"
  proof (intro allI impI conjI)
    fix stock v assume v: "computeView stock full p = Inr v"
    show "model_1_anomalies v = ?a" if "m = model_1 p"
      using computeView_models(1) [OF v] ma that by simp
    show "model_2_anomalies v = ?a" if "m = model_2 p"
      using computeView_models(2) [OF v] ma that by simp
  qed
  from ma b mem cv show ?thesis by (intro exI [of _ ?a] conjI)
qed

theorem model_flag_equals_one_witness:
  "\<exists>a. model_anomalies ex_full ex_params ''baseline'' = Inr a \<and>
      body a = [[Ts (to_timestamp 19724), Str ''ABC'', Num 1, Num 1]]"
proof -
  have h: "date_column ex_full = Inr 0" "loc (columns ex_full) ''Ticker'' = Inr 1"
    "loc (columns ex_full) ''baseline'' = Inr 2"
    by (simp_all add: ex_full_def date_column_def loc_def)
  from model_flag_equals_one [OF h, of ex_params]
  obtain a where a: "model_anomalies ex_full ex_params ''baseline'' = Inr a"
    and b: "body a = filter (\<lambda>r. window_mask 0 1 ex_params r \<and> py_eq (cell r 2) (Num 1))
      (body ex_full)" by (elim exE conjE)
  from b have "body a = [[Ts (to_timestamp 19724), Str ''ABC'', Num 1, Num 1]]"
    by (simp add: ex_full_def ex_params_def window_mask_def ge_ts_def le_ts_def cell_def
        to_timestamp_def ns_per_day_def)
  with a show ?thesis by (intro exI conjI)
qed

section \<open>The loader drops unparseable rows and sorts by date\<close>

text \<open>
  Claim C5. \<open>rawa\<close> is the anomaly file, \<open>rawp\<close> the price file. Whenever the column
  look-ups succeed and the library's conversions return their columns \<open>ds\<close> and \<open>ns\<close>,
  the loader returns a frame, however many cells came back missing: its rows are exactly
  the rows whose converted Date (and, in the price file, converted Adj Close) is not
  missing, each once, every other row is left out, and the rows are in ascending order of
  Date (for a column of timezone-naive dates: the Date cells are timestamps in ascending
  order). An unparseable cell never raises: when a loader raises, the exception is that
  of a column look-up or the one the library's conversion itself raised.
\<close>

theorem loader_drops_unparsed_rows:
  assumes "sorts (sort_values lib)"
  shows
  "(\<forall>d ds. loc (map strip (columns rawa)) ''Date'' = Inr d \<and>
           to_datetime lib (column d rawa) = Inr ds \<longrightarrow>
      (\<exists>df. load_anomalies lib rawa = Inr df \<and>
         mset (body df) = mset (map (\<lambda>k. set_cell d (value_at ds k) (body rawa ! k))
           (filter (\<lambda>k. value_at ds k \<noteq> Null) [0..<length (body rawa)])) \<and>
         (\<forall>r \<in> set (body df). cell r d \<noteq> Null) \<and>
         sorted (map (\<lambda>r. date_key (cell r d)) (body df)) \<and>
         (list_all is_naive ds \<longrightarrow>
            (\<exists>ts. map (\<lambda>r. cell r d) (body df) = map Ts ts \<and> sorted ts)))) \<and>
   (\<forall>d ds a ns. loc (map strip (columns rawp)) ''Date'' = Inr d \<and>
           to_datetime lib (column d rawp) = Inr ds \<and>
           loc (map strip (columns rawp)) ''Adj Close'' = Inr a \<and>
           to_numeric lib (column a rawp) = Inr ns \<longrightarrow>
      (\<exists>df. load_prices lib rawp = Inr df \<and>
         mset (body df) = mset (map (\<lambda>k. set_cell a (value_at ns k)
                                       (set_cell d (value_at ds k) (body rawp ! k)))
           (filter (\<lambda>k. value_at ds k \<noteq> Null \<and> value_at ns k \<noteq> Null)
              [0..<length (body rawp)])) \<and>
         (\<forall>r \<in> set (body df). cell r d \<noteq> Null \<and> cell r a \<noteq> Null) \<and>
         sorted (map (\<lambda>r. date_key (cell r d)) (body df)) \<and>
         (list_all is_naive ds \<longrightarrow>
            (\<exists>ts. map (\<lambda>r. cell r d) (body df) = map Ts ts \<and> sorted ts)))) \<and>
   (\<forall>e. load_anomalies lib rawa = Inl e \<longrightarrow>
      loc (map strip (columns rawa)) ''Date'' = Inl e \<or>
      (\<exists>d. loc (map strip (columns rawa)) ''Date'' = Inr d \<and>
           to_datetime lib (column d rawa) = Inl e)) \<and>
   (\<forall>e. load_prices lib rawp = Inl e \<longrightarrow>
      loc (map strip (columns rawp)) ''Date'' = Inl e \<or>
      (\<exists>d. loc (map strip (columns rawp)) ''Date'' = Inr d \<and>
        (to_datetime lib (column d rawp) = Inl e \<or>
         (\<exists>ds. to_datetime lib (column d rawp) = Inr ds \<and>
           (loc (map strip (columns rawp)) ''Adj Close'' = Inl e \<or>
            (\<exists>a. loc (map strip (columns rawp)) ''Adj Close'' = Inr a \<and>
                 to_numeric lib (column a rawp) = Inl e))))))"
proof (intro conjI allI impI)
  fix d ds
  assume h: "loc (map strip (columns rawa)) ''Date'' = Inr d \<and>
           to_datetime lib (column d rawa) = Inr ds"
  from loaded_anomalies [OF assms h [THEN conjunct1] h [THEN conjunct2]]
  show "\<exists>df. load_anomalies lib rawa = Inr df \<and>
         mset (body df) = mset (map (\<lambda>k. set_cell d (value_at ds k) (body rawa ! k))
           (filter (\<lambda>k. value_at ds k \<noteq> Null) [0..<length (body rawa)])) \<and>
         (\<forall>r \<in> set (body df). cell r d \<noteq> Null) \<and>
         sorted (map (\<lambda>r. date_key (cell r d)) (body df)) \<and>
         (list_all is_naive ds \<longrightarrow>
            (\<exists>ts. map (\<lambda>r. cell r d) (body df) = map Ts ts \<and> sorted ts))"
    by (elim exE conjE, intro exI conjI)
next
  fix d ds a ns
  assume h: "loc (map strip (columns rawp)) ''Date'' = Inr d \<and>
           to_datetime lib (column d rawp) = Inr ds \<and>
           loc (map strip (columns rawp)) ''Adj Close'' = Inr a \<and>
           to_numeric lib (column a rawp) = Inr ns"
  then have h1: "loc (map strip (columns rawp)) ''Date'' = Inr d"
    and h2: "to_datetime lib (column d rawp) = Inr ds"
    and h3: "loc (map strip (columns rawp)) ''Adj Close'' = Inr a"
    and h4: "to_numeric lib (column a rawp) = Inr ns" by simp_all
  from loaded_prices [OF assms h1 h2 h3 h4]
  show "\<exists>df. load_prices lib rawp = Inr df \<and>
         mset (body df) = mset (map (\<lambda>k. set_cell a (value_at ns k)
                                       (set_cell d (value_at ds k) (body rawp ! k)))
           (filter (\<lambda>k. value_at ds k \<noteq> Null \<and> value_at ns k \<noteq> Null)
              [0..<length (body rawp)])) \<and>
         (\<forall>r \<in> set (body df). cell r d \<noteq> Null \<and> cell r a \<noteq> Null) \<and>
         sorted (map (\<lambda>r. date_key (cell r d)) (body df)) \<and>
         (list_all is_naive ds \<longrightarrow>
            (\<exists>ts. map (\<lambda>r. cell r d) (body df) = map Ts ts \<and> sorted ts))"
    by (elim exE conjE, intro exI conjI)
next
  fix e assume "load_anomalies lib rawa = Inl e"
  then show "loc (map strip (columns rawa)) ''Date'' = Inl e \<or>
      (\<exists>d. loc (map strip (columns rawa)) ''Date'' = Inr d \<and>
           to_datetime lib (column d rawa) = Inl e)"
    by (rule load_anomalies_Inl)
next
  fix e assume "load_prices lib rawp = Inl e"
  then show "loc (map strip (columns rawp)) ''Date'' = Inl e \<or>
      (\<exists>d. loc (map strip (columns rawp)) ''Date'' = Inr d \<and>
        (to_datetime lib (column d rawp) = Inl e \<or>
         (\<exists>ds. to_datetime lib (column d rawp) = Inr ds \<and>
           (loc (map strip (columns rawp)) ''Adj Close'' = Inl e \<or>
            (\<exists>a. loc (map strip (columns rawp)) ''Adj Close'' = Inr a \<and>
                 to_numeric lib (column a rawp) = Inl e)))))"
    by (rule load_prices_Inl)
qed

theorem loader_drops_unparsed_rows_witness:
  "(\<exists>df. load_anomalies ex_lib ex_raw_anomalies = Inr df \<and> length (body df) = 1 \<and>
      (\<exists>ts. map (\<lambda>r. cell r 0) (body df) = map Ts ts \<and> sorted ts)) \<and>
   (\<exists>df. load_prices ex_lib ex_raw_prices = Inr df \<and> length (body df) = 3 \<and>
      (\<exists>ts. map (\<lambda>r. cell r 0) (body df) = map Ts ts \<and> sorted ts))"
proof -
  note inst = loader_drops_unparsed_rows [OF sorts_ex_lib, of ex_raw_anomalies ex_raw_prices]
  have na: "list_all is_naive [Ts (to_timestamp 19724), Null]"
    and np: "list_all is_naive
      [Ts (to_timestamp 19724), Null, Ts (to_timestamp 19723), Ts (to_timestamp 19723),
      Ts (to_timestamp 19724 + 55800000000000)]"
    by (simp_all add: is_naive_def)
  from inst [THEN conjunct1, THEN spec, THEN spec, THEN mp, OF ex_anomalies_hyps]
  obtain dfa where la: "load_anomalies ex_lib ex_raw_anomalies = Inr dfa"
    and ma: "mset (body dfa) = mset (map (\<lambda>k. set_cell 0
          (value_at [Ts (to_timestamp 19724), Null] k) (body ex_raw_anomalies ! k))
        (filter (\<lambda>k. value_at [Ts (to_timestamp 19724), Null] k \<noteq> Null)
          [0..<length (body ex_raw_anomalies)]))"
    and ta: "list_all is_naive [Ts (to_timestamp 19724), Null] \<longrightarrow>
      (\<exists>ts. map (\<lambda>r. cell r 0) (body dfa) = map Ts ts \<and> sorted ts)"
    by (elim exE conjE)
  from ma have "size (mset (body dfa)) = 1"
    by (simp add: ex_raw_anomalies_def value_at_def upt_rec)
  then have lena: "length (body dfa) = 1" by simp
  from inst [THEN conjunct2, THEN conjunct1, THEN spec, THEN spec, THEN spec, THEN spec,
      THEN mp, OF ex_prices_hyps]
  obtain dfp where lp: "load_prices ex_lib ex_raw_prices = Inr dfp"
    and mpr: "mset (body dfp) = mset (map (\<lambda>k. set_cell 2
          (value_at [Num 11, Num 12, Num 10, Null, Num 12] k)
          (set_cell 0 (value_at [Ts (to_timestamp 19724), Null, Ts (to_timestamp 19723), Ts (to_timestamp 19723),
      Ts (to_timestamp 19724 + 55800000000000)] k) (body ex_raw_prices ! k)))
        (filter (\<lambda>k. value_at [Ts (to_timestamp 19724), Null, Ts (to_timestamp 19723), Ts (to_timestamp 19723),
      Ts (to_timestamp 19724 + 55800000000000)] k \<noteq> Null \<and> value_at [Num 11, Num 12, Num 10, Null, Num 12] k \<noteq> Null)
          [0..<length (body ex_raw_prices)]))"
    and tp: "list_all is_naive [Ts (to_timestamp 19724), Null, Ts (to_timestamp 19723), Ts (to_timestamp 19723),
      Ts (to_timestamp 19724 + 55800000000000)] \<longrightarrow>
      (\<exists>ts. map (\<lambda>r. cell r 0) (body dfp) = map Ts ts \<and> sorted ts)"
    by (elim exE conjE)
  from mpr have "size (mset (body dfp)) = 3"
    by (simp add: ex_raw_prices_def value_at_def upt_rec)
  then have lenp: "length (body dfp) = 3" by simp
  from la lena ta [THEN mp, OF na]
  have a: "\<exists>df. load_anomalies ex_lib ex_raw_anomalies = Inr df \<and> length (body df) = 1 \<and>
      (\<exists>ts. map (\<lambda>r. cell r 0) (body df) = map Ts ts \<and> sorted ts)"
    by (intro exI [of _ dfa] conjI)
  from lp lenp tp [THEN mp, OF np]
  have p: "\<exists>df. load_prices ex_lib ex_raw_prices = Inr df \<and> length (body df) = 3 \<and>
      (\<exists>ts. map (\<lambda>r. cell r 0) (body df) = map Ts ts \<and> sorted ts)"
    by (intro exI [of _ dfp] conjI)
  from a p show ?thesis by (rule conjI)
qed

section \<open>Header names are trimmed, and matched case-sensitively\<close>

text \<open>
  Claim C6, as stated: header matching is insensitive to surrounding whitespace and to
  letter case. The script only trims (\<^verbatim>\<open>columns.str.strip()\<close>, lines 32 and 39) and then
  indexes by the exact label: a price file headed \<^verbatim>\<open>date\<close> makes line 33 raise
  \<^verbatim>\<open>KeyError: 'Date'\<close>.
\<close>

theorem header_matching_case_counterexample:
  "load_prices ex_lib ex_raw_lowercase = Inl (KeyError ''Date'')"
  by (simp add: load_prices_def Let_def ex_raw_lowercase_def loc_def strip_def isspace_def
      strip_columns_def)

text \<open>
  Claim C6, amended: matching ignores surrounding whitespace and is case-sensitive.
  Padding a name on either side with the whitespace characters of codes 9 to 13, 28 to
  32, 133 and 160 does not change what it trims to, and a name that neither starts nor
  ends with one of them is left as it is. Two headers with the same trimmed names load
  alike, and a loaded frame carries the trimmed names. A label that occurs once among the
  trimmed names is found at the column whose name trims to exactly that label. A
  required label that no trimmed name equals, be it for a difference in letter case only,
  raises \<^verbatim>\<open>KeyError\<close>: \<^verbatim>\<open>Date\<close> in both loaders, \<^verbatim>\<open>Adj Close\<close> in the price loader,
  \<^verbatim>\<open>Ticker\<close> in the look-up of line 48 and in the anomaly filter, and the model name in the
  anomaly filter.
\<close>

theorem header_matching_trims_only:
  "(set a \<union> set b \<subseteq> {CHR 0x09, CHR 0x0A, CHR 0x0B, CHR 0x0C, CHR 0x0D, CHR 0x1C, CHR 0x1D,
                     CHR 0x1E, CHR 0x1F, CHR 0x20, CHR 0x85, CHR 0xA0}
      \<longrightarrow> strip (a @ s @ b) = strip s) \<and>
   (s \<noteq> [] \<and>
    hd s \<notin> {CHR 0x09, CHR 0x0A, CHR 0x0B, CHR 0x0C, CHR 0x0D, CHR 0x1C, CHR 0x1D,
              CHR 0x1E, CHR 0x1F, CHR 0x20, CHR 0x85, CHR 0xA0} \<and>
    last s \<notin> {CHR 0x09, CHR 0x0A, CHR 0x0B, CHR 0x0C, CHR 0x0D, CHR 0x1C, CHR 0x1D,
                CHR 0x1E, CHR 0x1F, CHR 0x20, CHR 0x85, CHR 0xA0}
      \<longrightarrow> strip s = s) \<and>
   (map strip hs = map strip hs' \<longrightarrow>
      load_prices lib (raw\<lparr>columns := hs\<rparr>) = load_prices lib (raw\<lparr>columns := hs'\<rparr>) \<and>
      load_anomalies lib (raw\<lparr>columns := hs\<rparr>) = load_anomalies lib (raw\<lparr>columns := hs'\<rparr>)) \<and>
   (\<forall>df. load_prices lib raw = Inr df \<or> load_anomalies lib raw = Inr df
      \<longrightarrow> columns df = map strip (columns raw)) \<and>
   (\<forall>l. count_list (map strip (columns raw)) l = 1 \<longrightarrow>
      (\<exists>i < length (columns raw).
         loc (map strip (columns raw)) l = Inr i \<and> strip (columns raw ! i) = l)) \<and>
   (''Date'' \<notin> set (map strip (columns raw)) \<longrightarrow>
      load_prices lib raw = Inl (KeyError ''Date'') \<and>
      load_anomalies lib raw = Inl (KeyError ''Date'')) \<and>
   (\<forall>d ds. loc (map strip (columns raw)) ''Date'' = Inr d \<and>
           to_datetime lib (column d raw) = Inr ds \<and>
           ''Adj Close'' \<notin> set (map strip (columns raw)) \<longrightarrow>
      load_prices lib raw = Inl (KeyError ''Adj Close'')) \<and>
   (\<forall>d. loc (columns stock) ''Date'' = Inr d \<and> ''Ticker'' \<notin> set (columns stock) \<longrightarrow>
      computeView stock full p = Inl (KeyError ''Ticker'')) \<and>
   (\<forall>d. date_column full = Inr d \<and> ''Ticker'' \<notin> set (columns full) \<longrightarrow>
      model_anomalies full p m = Inl (KeyError ''Ticker'')) \<and>
   (\<forall>d t. date_column full = Inr d \<and> loc (columns full) ''Ticker'' = Inr t \<and>
          m \<notin> set (columns full) \<longrightarrow>
      model_anomalies full p m = Inl (KeyError m))"
proof (intro conjI allI impI)
  assume "set a \<union> set b \<subseteq> {CHR 0x09, CHR 0x0A, CHR 0x0B, CHR 0x0C, CHR 0x0D, CHR 0x1C,
    CHR 0x1D, CHR 0x1E, CHR 0x1F, CHR 0x20, CHR 0x85, CHR 0xA0}"
  then have sub: "\<And>c. c \<in> set a \<union> set b \<Longrightarrow> isspace c"
    unfolding isspace_iff by (rule subsetD)
  have "\<forall>c \<in> set a. isspace c" by (rule ballI, rule sub, rule UnI1)
  moreover have "\<forall>c \<in> set b. isspace c" by (rule ballI, rule sub, rule UnI2)
  ultimately show "strip (a @ s @ b) = strip s" by (rule strip_padding)
next
  assume h: "s \<noteq> [] \<and>
    hd s \<notin> {CHR 0x09, CHR 0x0A, CHR 0x0B, CHR 0x0C, CHR 0x0D, CHR 0x1C, CHR 0x1D,
              CHR 0x1E, CHR 0x1F, CHR 0x20, CHR 0x85, CHR 0xA0} \<and>
    last s \<notin> {CHR 0x09, CHR 0x0A, CHR 0x0B, CHR 0x0C, CHR 0x0D, CHR 0x1C, CHR 0x1D,
                CHR 0x1E, CHR 0x1F, CHR 0x20, CHR 0x85, CHR 0xA0}"
  have 1: "s \<noteq> []" by (rule h [THEN conjunct1])
  have 2: "\<not> isspace (hd s)"
    unfolding isspace_iff by (rule h [THEN conjunct2, THEN conjunct1])
  have 3: "\<not> isspace (last s)"
    unfolding isspace_iff by (rule h [THEN conjunct2, THEN conjunct2])
  from 1 2 3 show "strip s = s" by (rule strip_unpadded)
next
  assume h: "map strip hs = map strip hs'"
  show "load_prices lib (raw\<lparr>columns := hs\<rparr>) = load_prices lib (raw\<lparr>columns := hs'\<rparr>)"
    by (rule load_prices_header [OF h])
  show "load_anomalies lib (raw\<lparr>columns := hs\<rparr>) = load_anomalies lib (raw\<lparr>columns := hs'\<rparr>)"
    by (rule load_anomalies_header [OF h])
next
  fix df assume "load_prices lib raw = Inr df \<or> load_anomalies lib raw = Inr df"
  then show "columns df = map strip (columns raw)"
    by (rule disjE) (rule load_prices_columns, assumption, rule load_anomalies_columns, assumption)
next
  fix l assume "count_list (map strip (columns raw)) l = 1"
  then show "\<exists>i < length (columns raw).
      loc (map strip (columns raw)) l = Inr i \<and> strip (columns raw ! i) = l"
    by (rule loc_found)
next
  assume h: "''Date'' \<notin> set (map strip (columns raw))"
  show "load_prices lib raw = Inl (KeyError ''Date'')" by (rule load_no_date(1) [OF h])
  show "load_anomalies lib raw = Inl (KeyError ''Date'')" by (rule load_no_date(2) [OF h])
next
  fix d ds
  assume h: "loc (map strip (columns raw)) ''Date'' = Inr d \<and>
           to_datetime lib (column d raw) = Inr ds \<and>
           ''Adj Close'' \<notin> set (map strip (columns raw))"
  show "load_prices lib raw = Inl (KeyError ''Adj Close'')"
    by (rule load_prices_no_adj_close
        [OF h [THEN conjunct1] h [THEN conjunct2, THEN conjunct1] h [THEN conjunct2, THEN conjunct2]])
next
  fix d assume h: "loc (columns stock) ''Date'' = Inr d \<and> ''Ticker'' \<notin> set (columns stock)"
  show "computeView stock full p = Inl (KeyError ''Ticker'')"
    by (rule computeView_no_ticker [OF h [THEN conjunct1] h [THEN conjunct2]])
next
  fix d assume h: "date_column full = Inr d \<and> ''Ticker'' \<notin> set (columns full)"
  show "model_anomalies full p m = Inl (KeyError ''Ticker'')"
    by (rule model_anomalies_no_ticker [OF h [THEN conjunct1] h [THEN conjunct2]])
next
  fix d t
  assume h: "date_column full = Inr d \<and> loc (columns full) ''Ticker'' = Inr t \<and>
          m \<notin> set (columns full)"
  show "model_anomalies full p m = Inl (KeyError m)"
    by (rule model_anomalies_no_model
        [OF h [THEN conjunct1] h [THEN conjunct2, THEN conjunct1] h [THEN conjunct2, THEN conjunct2]])
qed

theorem header_matching_trims_only_witness:
  "strip ([CHR 0xA0, CHR 0x20] @ ''Adj Close'' @ [CHR 0x09, CHR 0x85]) = ''Adj Close'' \<and>
   load_prices ex_lib (ex_raw_prices\<lparr>columns := ['' Date'', ''Ticker '', ''Adj Close'']\<rparr>) =
     load_prices ex_lib (ex_raw_prices\<lparr>columns := [''Date'', ''Ticker'', ''Adj Close'']\<rparr>) \<and>
   (\<exists>df. load_prices ex_lib ex_raw_prices = Inr df \<and>
      columns df = [''Date'', ''Ticker'', ''Adj Close'']) \<and>
   (\<exists>i. loc (map strip (columns ex_raw_prices)) ''Ticker'' = Inr i \<and>
      strip (columns ex_raw_prices ! i) = ''Ticker'') \<and>
   load_anomalies ex_lib ex_raw_lowercase = Inl (KeyError ''Date'') \<and>
   load_prices ex_lib ex_raw_lowercase_adj = Inl (KeyError ''Adj Close'') \<and>
   computeView ex_stock_lowercase_ticker ex_full ex_params = Inl (KeyError ''Ticker'') \<and>
   model_anomalies ex_stock_lowercase_ticker ex_params ''svm'' = Inl (KeyError ''Ticker'') \<and>
   model_anomalies ex_full ex_params ''SVM'' = Inl (KeyError ''SVM'')"
proof -
  note w = header_matching_trims_only
    [where a = "[CHR 0xA0, CHR 0x20]" and b = "[CHR 0x09, CHR 0x85]" and s = "''Adj Close''"
       and hs = "['' Date'', ''Ticker '', ''Adj Close'']"
       and hs' = "[''Date'', ''Ticker'', ''Adj Close'']" and lib = ex_lib]
  have 1: "strip ([CHR 0xA0, CHR 0x20] @ ''Adj Close'' @ [CHR 0x09, CHR 0x85]) = strip ''Adj Close''"
    by (rule w [THEN conjunct1, THEN mp]) simp
  have 2: "strip ''Adj Close'' = ''Adj Close''"
    by (rule w [THEN conjunct2, THEN conjunct1, THEN mp]) simp
  have 3: "load_prices ex_lib (ex_raw_prices\<lparr>columns := ['' Date'', ''Ticker '', ''Adj Close'']\<rparr>) =
     load_prices ex_lib (ex_raw_prices\<lparr>columns := [''Date'', ''Ticker'', ''Adj Close'']\<rparr>)"
    by (rule w [where raw = ex_raw_prices, THEN conjunct2, THEN conjunct2, THEN conjunct1,
          THEN mp, THEN conjunct1])
      (simp add: strip_def isspace_def)
  note wp = w [where raw = ex_raw_prices, THEN conjunct2, THEN conjunct2, THEN conjunct2]
  from loaded_prices [OF sorts_ex_lib
      ex_prices_hyps [THEN conjunct1]
      ex_prices_hyps [THEN conjunct2, THEN conjunct1]
      ex_prices_hyps [THEN conjunct2, THEN conjunct2, THEN conjunct1]
      ex_prices_hyps [THEN conjunct2, THEN conjunct2, THEN conjunct2]]
  obtain df where df: "load_prices ex_lib ex_raw_prices = Inr df" by (elim exE conjE)
  from wp [THEN conjunct1, THEN spec, THEN mp, OF disjI1, OF df]
  have "columns df = map strip (columns ex_raw_prices)" .
  then have "columns df = [''Date'', ''Ticker'', ''Adj Close'']"
    by (simp add: ex_raw_prices_def strip_def isspace_def)
  with df have 4: "\<exists>df. load_prices ex_lib ex_raw_prices = Inr df \<and>
      columns df = [''Date'', ''Ticker'', ''Adj Close'']" by (intro exI conjI)
  have "count_list (map strip (columns ex_raw_prices)) ''Ticker'' = 1"
    by (simp add: ex_raw_prices_def strip_def isspace_def)
  from wp [THEN conjunct2, THEN conjunct1, THEN spec, THEN mp, OF this]
  have 5: "\<exists>i. loc (map strip (columns ex_raw_prices)) ''Ticker'' = Inr i \<and>
      strip (columns ex_raw_prices ! i) = ''Ticker''" by (elim exE conjE, intro exI conjI)
  have "''Date'' \<notin> set (map strip (columns ex_raw_lowercase))"
    by (simp add: ex_raw_lowercase_def strip_def isspace_def)
  from w [where raw = ex_raw_lowercase, THEN conjunct2, THEN conjunct2, THEN conjunct2,
      THEN conjunct2, THEN conjunct2, THEN conjunct1, THEN mp, OF this, THEN conjunct2]
  have 6: "load_anomalies ex_lib ex_raw_lowercase = Inl (KeyError ''Date'')" .
  have "loc (map strip (columns ex_raw_lowercase_adj)) ''Date'' = Inr 0 \<and>
      to_datetime ex_lib (column 0 ex_raw_lowercase_adj) = Inr [Ts (to_timestamp 19723)] \<and>
      ''Adj Close'' \<notin> set (map strip (columns ex_raw_lowercase_adj))"
    by (simp add: ex_raw_lowercase_adj_def strip_def isspace_def loc_def ex_lib_def column_def
        cell_def ex_parse_date_def)
  from w [where raw = ex_raw_lowercase_adj, THEN conjunct2, THEN conjunct2, THEN conjunct2,
      THEN conjunct2, THEN conjunct2, THEN conjunct2, THEN conjunct1, THEN spec, THEN spec,
      THEN mp, OF this]
  have 7: "load_prices ex_lib ex_raw_lowercase_adj = Inl (KeyError ''Adj Close'')" .
  have "loc (columns ex_stock_lowercase_ticker) ''Date'' = Inr 0 \<and>
      ''Ticker'' \<notin> set (columns ex_stock_lowercase_ticker)"
    by (simp add: ex_stock_lowercase_ticker_def loc_def)
  from w [where stock = ex_stock_lowercase_ticker and full = ex_full and p = ex_params,
      THEN conjunct2, THEN conjunct2, THEN conjunct2, THEN conjunct2, THEN conjunct2,
      THEN conjunct2, THEN conjunct2,
      THEN conjunct1, THEN spec, THEN mp, OF this]
  have 8: "computeView ex_stock_lowercase_ticker ex_full ex_params = Inl (KeyError ''Ticker'')" .
  have "date_column ex_stock_lowercase_ticker = Inr 0 \<and>
      ''Ticker'' \<notin> set (columns ex_stock_lowercase_ticker)"
    by (simp add: ex_stock_lowercase_ticker_def loc_def date_column_def)
  from w [where full = ex_stock_lowercase_ticker and p = ex_params and m = "''svm''",
      THEN conjunct2, THEN conjunct2, THEN conjunct2, THEN conjunct2, THEN conjunct2,
      THEN conjunct2, THEN conjunct2,
      THEN conjunct2, THEN conjunct1, THEN spec, THEN mp, OF this]
  have 9: "model_anomalies ex_stock_lowercase_ticker ex_params ''svm'' = Inl (KeyError ''Ticker'')" .
  have "date_column ex_full = Inr 0 \<and> loc (columns ex_full) ''Ticker'' = Inr 1 \<and>
      ''SVM'' \<notin> set (columns ex_full)"
    by (simp add: ex_full_def loc_def date_column_def)
  from w [where full = ex_full and p = ex_params and m = "''SVM''",
      THEN conjunct2, THEN conjunct2, THEN conjunct2, THEN conjunct2, THEN conjunct2,
      THEN conjunct2, THEN conjunct2,
      THEN conjunct2, THEN conjunct2, THEN spec, THEN spec, THEN mp, OF this]
  have 10: "model_anomalies ex_full ex_params ''SVM'' = Inl (KeyError ''SVM'')" .
  from 1 2 have 12: "strip ([CHR 0xA0, CHR 0x20] @ ''Adj Close'' @ [CHR 0x09, CHR 0x85]) = ''Adj Close''"
    by (rule trans)
  show ?thesis by (intro conjI) (rule 12 3 4 5 6 7 8 9 10)+
qed

end
